theory Spec2Isabelle
  imports Complex_Main "HOL-Library.Stream"
begin

section \<open>The external-integration manager (src/utils/integrationManager.ts)\<close>

text \<open>
  A shallow embedding of the classes \<^verbatim>\<open>RateLimiter\<close> and \<^verbatim>\<open>IntegrationManager\<close>.
  Times are integers: milliseconds since the epoch, as \<^verbatim>\<open>Date.now()\<close> returns them. The
  ISO-8601 strings the source stores (\<^verbatim>\<open>new Date().toISOString()\<close>) and reads back
  (\<^verbatim>\<open>new Date(e.timestamp)\<close>) carry exactly that millisecond count, so a stored time is
  modelled by the integer it denotes.
\<close>

subsection \<open>Rate limiter\<close>

record RateLimits =
  requestsPerSecond :: int
  requestsPerHour :: int
  requestsPerDay :: int

record RateLimiter =
  requests :: "int list"
  limits :: RateLimits

text \<open>The constructor: an empty request log and the limits it is given.\<close>

definition new_RateLimiter :: "RateLimits \<Rightarrow> RateLimiter" where
  "new_RateLimiter lims = \<lparr>requests = [], limits = lims\<rparr>"

text \<open>
  \<^verbatim>\<open>canMakeRequest()\<close>, with the value \<open>now\<close> of its one \<^verbatim>\<open>Date.now()\<close> as an argument.
  The result is the returned boolean and the limiter after the call: the log is pruned
  before the test, on both branches, and \<open>now\<close> is pushed only when the call admits.
\<close>

definition canMakeRequest :: "RateLimiter \<Rightarrow> int \<Rightarrow> bool \<times> RateLimiter" where
  "canMakeRequest rl now =
     (let secondAgo = now - 1000;
          hourAgo = now - 3600000;
          dayAgo = now - 86400000;
          reqs = filter (\<lambda>time. time > dayAgo) (requests rl);
          requestsLastSecond = int (length (filter (\<lambda>time. time > secondAgo) reqs));
          requestsLastHour = int (length (filter (\<lambda>time. time > hourAgo) reqs));
          requestsLastDay = int (length reqs)
      in if requestsLastSecond \<ge> requestsPerSecond (limits rl) \<or>
            requestsLastHour \<ge> requestsPerHour (limits rl) \<or>
            requestsLastDay \<ge> requestsPerDay (limits rl)
         then (False, rl\<lparr>requests := reqs\<rparr>)
         else (True, rl\<lparr>requests := reqs @ [now]\<rparr>))"

text \<open>
  A sequence of calls on one limiter, at the given clock values: the trace of
  (timestamp, returned boolean), and the timestamps of the calls that returned true.
\<close>

fun calls :: "RateLimiter \<Rightarrow> int list \<Rightarrow> (int \<times> bool) list" where
  "calls rl [] = []"
| "calls rl (t # ts) =
     (case canMakeRequest rl t of (ok, rl') \<Rightarrow> (t, ok) # calls rl' ts)"

definition admitted :: "RateLimiter \<Rightarrow> int list \<Rightarrow> int list" where
  "admitted rl ts = map fst (filter snd (calls rl ts))"

text \<open>
  The number of timestamps of \<open>A\<close> in the trailing window of width \<open>w\<close> that ends at \<open>t\<close>.
  The window is open at its old end, as the source's test \<^verbatim>\<open>time > now - w\<close> is.
\<close>

definition in_window :: "int \<Rightarrow> int \<Rightarrow> int list \<Rightarrow> int" where
  "in_window w t A = int (length (filter (\<lambda>a. t - w < a \<and> a \<le> t) A))"

subsection \<open>Data model\<close>

text \<open>
  The interfaces of the source become records, their string-literal unions datatypes.
  A field keeps its name in the source unless two records share it or HOL already uses
  it; then it carries a prefix (\<open>config_id\<close>, \<open>event_id\<close>, \<open>event_type\<close>, \<open>event_status\<close>,
  \<open>handler_integrationId\<close>, \<open>response_status\<close>). The index signatures
  (\<^verbatim>\<open>[key: string]: any\<close>) are read by no method and are left out. A value of type
  \<^verbatim>\<open>any\<close> is a JSON value.
\<close>

datatype json =
  JUndefined | JNull | JBool bool | JNumber int | JString string
  | JObject "(string \<times> json) list"

text \<open>JavaScript's truthiness, which \<^verbatim>\<open>data ? ... : undefined\<close> tests.\<close>

fun truthy :: "json \<Rightarrow> bool" where
  "truthy JUndefined = False"
| "truthy JNull = False"
| "truthy (JBool b) = b"
| "truthy (JNumber n) = (n \<noteq> 0)"
| "truthy (JString s) = (s \<noteq> [])"
| "truthy (JObject _) = True"

text \<open>A thrown \<^verbatim>\<open>Error\<close> object, with its message.\<close>

datatype error = Error (message: string)

text \<open>
  Code from outside the manager (a webhook handler, a provider's sync step) may throw,
  or reject with, any JavaScript value. What the manager does with a caught value is
  read its \<^verbatim>\<open>message\<close> property, so three kinds of value are told apart: an
  \<^verbatim>\<open>Error\<close> object (or another object with a string message); \<^verbatim>\<open>null\<close> or
  \<^verbatim>\<open>undefined\<close>, on which reading a property throws; and any other value, taken
  to have no \<^verbatim>\<open>message\<close> property, so that the read gives \<^verbatim>\<open>undefined\<close>.
\<close>

datatype thrown = ErrorObject error | Nullish | Other

datatype Category =
  Email | Sms | Calendar | Storage | Crm | Payment | Analytics | Communication

datatype Status = Active | Inactive | StatusError | Pending

datatype EventType = Sync | Webhook | ApiCall | ErrorEvent | AuthRefresh

datatype Direction = Inbound | Outbound

datatype EventStatus = Success | Failed | EventPending

datatype SyncDirection = Pull | Push | Bidirectional


record Credentials =
  apiKey :: "string option"
  apiSecret :: "string option"
  accessToken :: "string option"
  refreshToken :: "string option"
  clientId :: "string option"
  clientSecret :: "string option"
  webhook :: "string option"

record Settings =
  syncEnabled :: bool
  syncInterval :: int
  lastSync :: "int option"
  webhookUrl :: "string option"
  rateLimits :: "RateLimits option"

record Endpoints =
  base :: string
  auth :: "string option"
  webhook_endpoint :: "string option"

record IntegrationConfig =
  config_id :: string
  name :: string
  category :: Category
  provider :: string
  status :: Status
  credentials :: Credentials
  settings :: Settings
  endpoints :: Endpoints
  createdAt :: int
  updatedAt :: int

text \<open>\<^verbatim>\<open>Partial<IntegrationConfig>\<close>: every field may be absent.\<close>

record ConfigUpdates =
  upd_id :: "string option"
  upd_name :: "string option"
  upd_category :: "Category option"
  upd_provider :: "string option"
  upd_status :: "Status option"
  upd_credentials :: "Credentials option"
  upd_settings :: "Settings option"
  upd_endpoints :: "Endpoints option"
  upd_createdAt :: "int option"
  upd_updatedAt :: "int option"

definition no_updates :: ConfigUpdates where
  "no_updates =
     \<lparr>upd_id = None, upd_name = None, upd_category = None, upd_provider = None,
      upd_status = None, upd_credentials = None, upd_settings = None,
      upd_endpoints = None, upd_createdAt = None, upd_updatedAt = None\<rparr>"

record Metadata =
  endpoint :: "string option"
  httpStatus :: "int option"
  responseTime :: "int option"

record IntegrationEvent =
  event_id :: string
  integrationId :: string
  event_type :: EventType
  direction :: Direction
  event_status :: EventStatus
  data :: json
  error :: "string option"
  timestamp :: int
  retryCount :: int
  metadata :: "Metadata option"

text \<open>
  A webhook handler is an external function: called with the payload it returns, or
  throws a value. It does not reach back into the manager.
\<close>

record WebhookHandler =
  handler_integrationId :: string
  eventTypes :: "string list"
  handler :: "json \<Rightarrow> thrown + unit"

text \<open>
  What \<^verbatim>\<open>fetch\<close> is called with and what it resolves to. The body is the value that
  \<^verbatim>\<open>JSON.stringify\<close> serialises, when there is one. \<open>ok\<close> is the Fetch standard's: the
  status is in the range 200 to 299. \<^verbatim>\<open>fetch\<close> itself is an argument of the methods
  that call it: a function from the request to the response, or to the error thrown.
  It is the platform's function, which rejects with an \<^verbatim>\<open>Error\<close> object (a
  \<^verbatim>\<open>TypeError\<close> or a \<^verbatim>\<open>DOMException\<close>).
\<close>

record Request =
  url :: string
  http_method :: string
  headers :: "string \<rightharpoonup> string"
  body :: "json option"

record Response =
  response_status :: int

definition ok :: "Response \<Rightarrow> bool" where
  "ok r \<longleftrightarrow> 200 \<le> response_status r \<and> response_status r \<le> 299"

type_synonym Fetch = "Request \<Rightarrow> error + Response"


text \<open>
  The manager: the four private fields of the class, and the two sources of
  nondeterminism its methods read, as streams. \<open>clock\<close> holds the successive values of
  \<^verbatim>\<open>Date.now()\<close> and \<^verbatim>\<open>new Date()\<close>, \<open>random\<close> the successive strings
  \<^verbatim>\<open>Math.random().toString(36).substr(2, 9)\<close>.
\<close>

record IntegrationManager =
  integrations :: "string \<rightharpoonup> IntegrationConfig"
  webhookHandlers :: "string \<rightharpoonup> WebhookHandler list"
  events :: "IntegrationEvent list"
  rateLimiters :: "string \<rightharpoonup> RateLimiter"
  clock :: "int stream"
  random :: "string stream"

definition new_IntegrationManager :: "int stream \<Rightarrow> string stream \<Rightarrow> IntegrationManager" where
  "new_IntegrationManager clk rnd =
     \<lparr>integrations = Map.empty, webhookHandlers = Map.empty, events = [],
      rateLimiters = Map.empty, clock = clk, random = rnd\<rparr>"

subsection \<open>Methods as state transformers that may throw\<close>

text \<open>
  A method takes the manager and returns its result, or the \<^verbatim>\<open>Error\<close> it throws, and
  the manager as the call leaves it: what a method did before it threw stays done.
  The source is single-threaded and the collaborators (\<^verbatim>\<open>fetch\<close>, webhook handlers, the
  pull and push steps) do not call the manager, so a method runs from its first
  statement to its last without another one interleaved at an \<^verbatim>\<open>await\<close>.
\<close>

text \<open>
  \<open>('e, 'a) ME\<close> is a computation that throws values of type \<open>'e\<close>. A method of the
  manager throws \<^verbatim>\<open>Error\<close> objects only (\<open>'a M\<close>); the body of a \<^verbatim>\<open>try\<close> block that
  calls external code may throw any value.
\<close>

type_synonym ('e, 'a) ME = "IntegrationManager \<Rightarrow> ('e + 'a) \<times> IntegrationManager"

type_synonym 'a M = "(error, 'a) ME"

definition ret :: "'a \<Rightarrow> ('e, 'a) ME" where
  "ret x m = (Inr x, m)"

definition throw :: "'e \<Rightarrow> ('e, 'a) ME" where
  "throw e m = (Inl e, m)"

definition andThen :: "('e, 'a) ME \<Rightarrow> ('a \<Rightarrow> ('e, 'b) ME) \<Rightarrow> ('e, 'b) ME" where
  "andThen f g m = (case f m of (Inl e, m') \<Rightarrow> (Inl e, m') | (Inr x, m') \<Rightarrow> g x m')"

definition tryCatch :: "('e, 'a) ME \<Rightarrow> ('e \<Rightarrow> ('f, 'a) ME) \<Rightarrow> ('f, 'a) ME" where
  "tryCatch f h m = (case f m of (Inl e, m') \<Rightarrow> h e m' | (Inr x, m') \<Rightarrow> (Inr x, m'))"

text \<open>The result of an external call that does not touch the manager.\<close>

definition external :: "'e + 'a \<Rightarrow> ('e, 'a) ME" where
  "external r m = (r, m)"

text \<open>
  A method of the manager called inside a \<^verbatim>\<open>try\<close> block whose \<^verbatim>\<open>catch\<close> receives any
  value: the \<^verbatim>\<open>Error\<close> it throws is one of the values that can be caught.
\<close>

definition own :: "'a M \<Rightarrow> (thrown, 'a) ME" where
  "own f m = (case f m of (Inl e, m') \<Rightarrow> (Inl (ErrorObject e), m') | (Inr x, m') \<Rightarrow> (Inr x, m'))"

text \<open>
  The expression \<^verbatim>\<open>(error as Error).message\<close> of a \<^verbatim>\<open>catch\<close> block. The cast does
  nothing at run time. On \<^verbatim>\<open>null\<close> and \<^verbatim>\<open>undefined\<close> the property read throws the
  engine's \<^verbatim>\<open>TypeError\<close>, an \<^verbatim>\<open>Error\<close> object whose message text is the engine's.
\<close>

definition TypeError :: error where
  "TypeError = Error ''Cannot read properties of undefined''"

definition read_message :: "thrown \<Rightarrow> string option M" where
  "read_message caught =
     (case caught of
        ErrorObject e \<Rightarrow> ret (Some (message e))
      | Nullish \<Rightarrow> throw TypeError
      | Other \<Rightarrow> ret None)"

definition Date_now :: "int M" where
  "Date_now m = (Inr (shd (clock m)), m\<lparr>clock := stl (clock m)\<rparr>)"

definition Math_random :: "string M" where
  "Math_random m = (Inr (shd (random m)), m\<lparr>random := stl (random m)\<rparr>)"

text \<open>Decimal rendering of a number inside a template string.\<close>

fun show_nat :: "nat \<Rightarrow> string" where
  "show_nat n =
     (if n < 10 then [char_of (48 + n)]
      else show_nat (n div 10) @ [char_of (48 + n mod 10)])"

declare show_nat.simps [simp del]

definition show_int :: "int \<Rightarrow> string" where
  "show_int i = (if i < 0 then CHR ''-'' # show_nat (nat (- i)) else show_nat (nat i))"

subsection \<open>The event log\<close>

text \<open>\<^verbatim>\<open>xs.slice(-n)\<close>: the last \<open>n\<close> elements, all of them when there are fewer.\<close>

definition slice_last :: "nat \<Rightarrow> 'a list \<Rightarrow> 'a list" where
  "slice_last n xs = drop (length xs - n) xs"

text \<open>The last two statements of \<^verbatim>\<open>logEvent\<close>: push the event, keep the last 10000.\<close>

definition push_event :: "IntegrationEvent list \<Rightarrow> IntegrationEvent \<Rightarrow> IntegrationEvent list" where
  "push_event evs event =
     (let evs' = evs @ [event]
      in if length evs' > 10000 then slice_last 10000 evs' else evs')"

definition logEvent ::
  "string \<Rightarrow> EventType \<Rightarrow> Direction \<Rightarrow> EventStatus \<Rightarrow> json \<Rightarrow> string option \<Rightarrow>
   Metadata option \<Rightarrow> unit M" where
  "logEvent iid ty dir st dat err meta =
     andThen Date_now (\<lambda>t1.
     andThen Math_random (\<lambda>r.
     andThen Date_now (\<lambda>t2.
       (\<lambda>m. (Inr (),
          m\<lparr>events := push_event (events m)
               \<lparr>event_id = ''event_'' @ show_int t1 @ ''_'' @ r,
                integrationId = iid, event_type = ty, direction = dir,
                event_status = st, data = dat, error = err, timestamp = t2,
                retryCount = 0, metadata = meta\<rparr>\<rparr>)))))"

text \<open>The arguments of one \<^verbatim>\<open>logEvent\<close> call, and a sequence of such calls.\<close>

record LogArgs =
  arg_integrationId :: string
  arg_type :: EventType
  arg_direction :: Direction
  arg_status :: EventStatus
  arg_data :: json
  arg_error :: "string option"
  arg_metadata :: "Metadata option"

definition logEvent_args :: "LogArgs \<Rightarrow> unit M" where
  "logEvent_args a =
     logEvent (arg_integrationId a) (arg_type a) (arg_direction a) (arg_status a)
       (arg_data a) (arg_error a) (arg_metadata a)"

fun logEvents :: "LogArgs list \<Rightarrow> IntegrationManager \<Rightarrow> IntegrationManager" where
  "logEvents [] m = m"
| "logEvents (a # as) m = logEvents as (snd (logEvent_args a m))"

text \<open>
  The event that the next \<^verbatim>\<open>logEvent\<close> call builds, and the events that a sequence of
  calls builds, oldest first, whether the log still holds them or not.
\<close>

definition built_event :: "LogArgs \<Rightarrow> IntegrationManager \<Rightarrow> IntegrationEvent" where
  "built_event a m =
     \<lparr>event_id = ''event_'' @ show_int (shd (clock m)) @ ''_'' @ shd (random m),
      integrationId = arg_integrationId a, event_type = arg_type a,
      direction = arg_direction a, event_status = arg_status a, data = arg_data a,
      error = arg_error a, timestamp = shd (stl (clock m)), retryCount = 0,
      metadata = arg_metadata a\<rparr>"

fun built_events :: "LogArgs list \<Rightarrow> IntegrationManager \<Rightarrow> IntegrationEvent list" where
  "built_events [] m = []"
| "built_events (a # as) m = built_event a m # built_events as (snd (logEvent_args a m))"

subsection \<open>Registry and dispatcher\<close>

text \<open>
  \<^verbatim>\<open>listIntegrations\<close> and \<^verbatim>\<open>getEvents\<close> only read the manager and no property below
  is about them; they are not modelled.
\<close>

definition not_found :: "string \<Rightarrow> error" where
  "not_found i = Error (''Integration '' @ i @ '' not found'')"

definition override :: "'a \<Rightarrow> 'a option \<Rightarrow> 'a" where
  "override old new = (case new of None \<Rightarrow> old | Some v \<Rightarrow> v)"

text \<open>The object spread \<^verbatim>\<open>{...integration, ...updates, updatedAt: now}\<close>.\<close>

definition spread :: "IntegrationConfig \<Rightarrow> ConfigUpdates \<Rightarrow> int \<Rightarrow> IntegrationConfig" where
  "spread c u now =
     \<lparr>config_id = override (config_id c) (upd_id u),
      name = override (name c) (upd_name u),
      category = override (category c) (upd_category u),
      provider = override (provider c) (upd_provider u),
      status = override (status c) (upd_status u),
      credentials = override (credentials c) (upd_credentials u),
      settings = override (settings c) (upd_settings u),
      endpoints = override (endpoints c) (upd_endpoints u),
      createdAt = override (createdAt c) (upd_createdAt u),
      updatedAt = now\<rparr>"

definition updateIntegration :: "string \<Rightarrow> ConfigUpdates \<Rightarrow> unit M" where
  "updateIntegration i updates m =
     (case integrations m i of
        None \<Rightarrow> throw (not_found i) m
      | Some integration \<Rightarrow>
          andThen Date_now (\<lambda>now m'.
            (Inr (), m'\<lparr>integrations := (integrations m')(i \<mapsto> spread integration updates now)\<rparr>)) m)"

definition getIntegration :: "IntegrationManager \<Rightarrow> string \<Rightarrow> IntegrationConfig option" where
  "getIntegration m i = integrations m i"

text \<open>A string is truthy when it is present and not empty.\<close>

definition present :: "string option \<Rightarrow> bool" where
  "present s \<longleftrightarrow> (case s of None \<Rightarrow> False | Some v \<Rightarrow> v \<noteq> [])"

definition getAuthHeaders :: "IntegrationConfig \<Rightarrow> (string \<rightharpoonup> string)" where
  "getAuthHeaders integration =
     (let h0 = Map.empty;
          h1 = (if present (apiKey (credentials integration))
                then h0(''Authorization'' \<mapsto> ''Bearer '' @ the (apiKey (credentials integration)))
                else h0);
          h2 = (if present (accessToken (credentials integration))
                then h1(''Authorization'' \<mapsto> ''Bearer '' @ the (accessToken (credentials integration)))
                else h1)
      in h2)"

text \<open>
  The rate-limit test of \<^verbatim>\<open>makeApiCall\<close>: with no limiter bound the call goes on;
  with one, \<^verbatim>\<open>canMakeRequest\<close> reads the clock and leaves the limiter as it returns
  it, and a refusal throws.
\<close>

definition checkRateLimit :: "string \<Rightarrow> unit M" where
  "checkRateLimit i m =
     (case rateLimiters m i of
        None \<Rightarrow> ret () m
      | Some rateLimiter \<Rightarrow>
          andThen Date_now (\<lambda>now m'.
            (case canMakeRequest rateLimiter now of
               (admit, rl') \<Rightarrow>
                 (if \<not> admit then throw (Error ''Rate limit exceeded'')
                  else ret ()) (m'\<lparr>rateLimiters := (rateLimiters m')(i \<mapsto> rl')\<rparr>))) m)"

definition call_data :: "string \<Rightarrow> string \<Rightarrow> json \<Rightarrow> json" where
  "call_data method ep dat =
     JObject [(''method'', JString method), (''endpoint'', JString ep), (''data'', dat)]"

definition makeApiCall ::
  "Fetch \<Rightarrow> string \<Rightarrow> string \<Rightarrow> string \<Rightarrow> json \<Rightarrow> (string \<rightharpoonup> string) \<Rightarrow> Response M" where
  "makeApiCall fetch i method ep dat hdrs m =
     (case integrations m i of
        None \<Rightarrow> throw (not_found i) m
      | Some integration \<Rightarrow>
          andThen (checkRateLimit i) (\<lambda>_.
          andThen Date_now (\<lambda>startTime.
            tryCatch
              (andThen
                 (external (fetch
                    \<lparr>url = ep, http_method = method,
                     headers = [''Content-Type'' \<mapsto> ''application/json'']
                                 ++ getAuthHeaders integration ++ hdrs,
                     body = (if truthy dat then Some dat else None)\<rparr>))
                 (\<lambda>response.
                    andThen Date_now (\<lambda>endTime.
                    andThen
                      (logEvent i ApiCall Outbound
                         (if ok response then Success else Failed)
                         (call_data method ep dat)
                         (if ok response then None
                          else Some (''HTTP '' @ show_int (response_status response)))
                         (Some \<lparr>endpoint = Some ep,
                                httpStatus = Some (response_status response),
                                responseTime = Some (endTime - startTime)\<rparr>))
                      (\<lambda>_. ret response))))
              (\<lambda>err.
                 andThen Date_now (\<lambda>endTime.
                 andThen
                   (logEvent i ApiCall Outbound Failed (call_data method ep dat)
                      (Some (message err))
                      (Some \<lparr>endpoint = Some ep, httpStatus = None,
                             responseTime = Some (endTime - startTime)\<rparr>))
                   (\<lambda>_. throw err))))) m)"

definition with_status :: "Status \<Rightarrow> ConfigUpdates" where
  "with_status s = no_updates\<lparr>upd_status := Some s\<rparr>"

definition testIntegration :: "Fetch \<Rightarrow> string \<Rightarrow> bool M" where
  "testIntegration fetch i m =
     (case integrations m i of
        None \<Rightarrow> throw (not_found i) m
      | Some integration \<Rightarrow>
          tryCatch
            (andThen
               (makeApiCall fetch i ''GET'' (base (endpoints integration) @ ''/health'')
                  JUndefined Map.empty)
               (\<lambda>response.
                  if ok response
                  then andThen (updateIntegration i (with_status Active)) (\<lambda>_. ret True)
                  else andThen (updateIntegration i (with_status StatusError)) (\<lambda>_. ret False)))
            (\<lambda>err.
               andThen (updateIntegration i (with_status StatusError)) (\<lambda>_.
               andThen (logEvent i ErrorEvent Outbound Failed JNull (Some (message err)) None) (\<lambda>_.
               ret False))) m)"

text \<open>
  \<^verbatim>\<open>registerIntegration\<close>. Its argument has no \<^verbatim>\<open>createdAt\<close> and \<^verbatim>\<open>updatedAt\<close> in the
  source; here they are there and overwritten. A limiter is created only when the
  configuration has \<^verbatim>\<open>rateLimits\<close>; nothing is done to the limiter map otherwise.
\<close>

definition registerIntegration :: "Fetch \<Rightarrow> IntegrationConfig \<Rightarrow> string M" where
  "registerIntegration fetch config =
     andThen Date_now (\<lambda>t1.
     andThen Date_now (\<lambda>t2.
       (let integration = config\<lparr>createdAt := t1, updatedAt := t2\<rparr>
        in andThen
             (\<lambda>m. (Inr (),
                (let m1 = m\<lparr>integrations := (integrations m)(config_id integration \<mapsto> integration)\<rparr>
                 in case rateLimits (settings integration) of
                      None \<Rightarrow> m1
                    | Some lims \<Rightarrow>
                        m1\<lparr>rateLimiters :=
                             (rateLimiters m1)(config_id integration \<mapsto> new_RateLimiter lims)\<rparr>)))
             (\<lambda>_. andThen (testIntegration fetch (config_id integration))
             (\<lambda>_. ret (config_id integration))))))"

subsection \<open>Webhook router\<close>

definition registerWebhookHandler :: "WebhookHandler \<Rightarrow> IntegrationManager \<Rightarrow> IntegrationManager" where
  "registerWebhookHandler h m =
     (let existing = (case webhookHandlers m (handler_integrationId h) of
                        None \<Rightarrow> [] | Some hs \<Rightarrow> hs)
      in m\<lparr>webhookHandlers := (webhookHandlers m)(handler_integrationId h \<mapsto> existing @ [h])\<rparr>)"

text \<open>The body of the \<^verbatim>\<open>for\<close> loop of \<^verbatim>\<open>handleWebhook\<close>, and the loop.\<close>

definition runHandler :: "string \<Rightarrow> json \<Rightarrow> WebhookHandler \<Rightarrow> unit M" where
  "runHandler i dat h =
     tryCatch
       (andThen (external (handler h dat)) (\<lambda>_.
          own (logEvent i Webhook Inbound Success dat None None)))
       (\<lambda>caught.
          andThen (read_message caught) (\<lambda>msg.
          logEvent i Webhook Inbound Failed dat msg None))"

fun runHandlers :: "string \<Rightarrow> json \<Rightarrow> WebhookHandler list \<Rightarrow> unit M" where
  "runHandlers i dat [] = ret ()"
| "runHandlers i dat (h # hs) = andThen (runHandler i dat h) (\<lambda>_. runHandlers i dat hs)"

definition matchingHandlers :: "IntegrationManager \<Rightarrow> string \<Rightarrow> string \<Rightarrow> WebhookHandler list" where
  "matchingHandlers m i eventType =
     (let handlers = (case webhookHandlers m i of None \<Rightarrow> [] | Some hs \<Rightarrow> hs)
      in filter (\<lambda>h. eventType \<in> set (eventTypes h)) handlers)"

definition handleWebhook :: "string \<Rightarrow> string \<Rightarrow> json \<Rightarrow> unit M" where
  "handleWebhook i eventType dat m = runHandlers i dat (matchingHandlers m i eventType) m"

text \<open>
  A handler whose run on the payload ends with \<^verbatim>\<open>null\<close> or \<^verbatim>\<open>undefined\<close> thrown.
\<close>

definition rejects_nullish :: "json \<Rightarrow> WebhookHandler \<Rightarrow> bool" where
  "rejects_nullish dat h \<longleftrightarrow> handler h dat = Inl Nullish"

text \<open>
  The message that a \<^verbatim>\<open>catch\<close> block logs for a caught value that is not \<^verbatim>\<open>null\<close> or
  \<^verbatim>\<open>undefined\<close>, and what the log records of the run of a handler that does not
  reject with such a value: the arguments of the \<^verbatim>\<open>logEvent\<close> call that the loop
  body makes for it.
\<close>

definition caught_message :: "thrown \<Rightarrow> string option" where
  "caught_message caught = (case caught of ErrorObject e \<Rightarrow> Some (message e) | _ \<Rightarrow> None)"

definition handler_log :: "string \<Rightarrow> json \<Rightarrow> WebhookHandler \<Rightarrow> LogArgs" where
  "handler_log i dat h =
     (case handler h dat of
        Inr _ \<Rightarrow>
          \<lparr>arg_integrationId = i, arg_type = Webhook, arg_direction = Inbound,
           arg_status = Success, arg_data = dat, arg_error = None, arg_metadata = None\<rparr>
      | Inl caught \<Rightarrow>
          \<lparr>arg_integrationId = i, arg_type = Webhook, arg_direction = Inbound,
           arg_status = Failed, arg_data = dat, arg_error = caught_message caught,
           arg_metadata = None\<rparr>)"

subsection \<open>Sync orchestrator\<close>

text \<open>
  The pull and the push step are provider-specific (``implementation depends on
  specific integration''), so \<^verbatim>\<open>syncData\<close> takes them as arguments: external
  functions that return or throw a value. The two private methods of the source are
  the instances that only write to the console; they never throw.
\<close>

type_synonym SyncStep = "string \<Rightarrow> thrown + unit"

definition pullData :: SyncStep where
  "pullData i = Inr ()"

definition pushData :: SyncStep where
  "pushData i = Inr ()"

definition direction_string :: "SyncDirection \<Rightarrow> string" where
  "direction_string d = (case d of Pull \<Rightarrow> ''pull'' | Push \<Rightarrow> ''push'' | Bidirectional \<Rightarrow> ''bidirectional'')"

definition sync_data :: "SyncDirection \<Rightarrow> json" where
  "sync_data d = JObject [(''direction'', JString (direction_string d))]"

definition syncData :: "SyncStep \<Rightarrow> SyncStep \<Rightarrow> string \<Rightarrow> SyncDirection \<Rightarrow> unit M" where
  "syncData pull push i d m =
     (case integrations m i of
        None \<Rightarrow> ret () m
      | Some integration \<Rightarrow>
          if \<not> syncEnabled (settings integration) then ret () m
          else
            tryCatch
              (andThen
                 (if d = Pull \<or> d = Bidirectional then external (pull i) else ret ()) (\<lambda>_.
               andThen
                 (if d = Push \<or> d = Bidirectional then external (push i) else ret ()) (\<lambda>_.
               andThen (own Date_now) (\<lambda>now.
               andThen
                 (own (updateIntegration i
                    (no_updates\<lparr>upd_settings :=
                       Some ((settings integration)\<lparr>lastSync := Some now\<rparr>)\<rparr>))) (\<lambda>_.
               own (logEvent i Sync Outbound Success (sync_data d) None None))))))
              (\<lambda>caught.
                 andThen (read_message caught) (\<lambda>msg.
                 logEvent i Sync Outbound Failed (sync_data d) msg None)) m)"

text \<open>
  The outcome of the steps that a direction runs, in the source's order: the pull step
  for \<^verbatim>\<open>pull\<close> and \<^verbatim>\<open>bidirectional\<close>, then the push step for \<^verbatim>\<open>push\<close> and
  \<^verbatim>\<open>bidirectional\<close>, stopping at the first that throws.
\<close>

definition steps_outcome :: "SyncStep \<Rightarrow> SyncStep \<Rightarrow> string \<Rightarrow> SyncDirection \<Rightarrow> thrown + unit" where
  "steps_outcome pull push i d =
     (case (if d = Pull \<or> d = Bidirectional then pull i else Inr ()) of
        Inl caught \<Rightarrow> Inl caught
      | Inr _ \<Rightarrow> (if d = Push \<or> d = Bidirectional then push i else Inr ()))"

subsection \<open>Metrics\<close>



















subsection \<open>Predicates used in the proofs\<close>

text \<open>
  \<open>log_agrees T A rl\<close>: no call so far came after \<open>T\<close>, and the limiter's log holds
  the admitted timestamps \<open>A\<close> up to entries that no check from \<open>T\<close> on can count.
\<close>

definition log_agrees :: "int \<Rightarrow> int list \<Rightarrow> RateLimiter \<Rightarrow> bool" where
  "log_agrees T A rl \<longleftrightarrow>
     (\<forall>a\<in>set A. a \<le> T) \<and>
     (\<forall>c. T - 86400000 \<le> c \<longrightarrow>
        filter (\<lambda>a. a > c) (requests rl) = filter (\<lambda>a. a > c) A)"

definition within_limits :: "RateLimits \<Rightarrow> int list \<Rightarrow> bool" where
  "within_limits lims A \<longleftrightarrow>
     (\<forall>t. in_window 1000 t A \<le> requestsPerSecond lims \<and>
          in_window 3600000 t A \<le> requestsPerHour lims \<and>
          in_window 86400000 t A \<le> requestsPerDay lims)"

subsection \<open>Examples\<close>

definition example_limits :: RateLimits where
  "example_limits = \<lparr>requestsPerSecond = 1, requestsPerHour = 5, requestsPerDay = 10\<rparr>"

definition example_args :: "EventStatus \<Rightarrow> LogArgs" where
  "example_args st =
     \<lparr>arg_integrationId = ''y'', arg_type = ApiCall, arg_direction = Outbound,
      arg_status = st, arg_data = JNull, arg_error = None, arg_metadata = None\<rparr>"



definition example_config :: IntegrationConfig where
  "example_config =
     \<lparr>config_id = ''y'', name = ''Y'', category = Email, provider = ''Y Inc'',
      status = Inactive,
      credentials = \<lparr>apiKey = None, apiSecret = None, accessToken = None,
        refreshToken = None, clientId = None, clientSecret = None, webhook = None\<rparr>,
      settings = \<lparr>syncEnabled = True, syncInterval = 60, lastSync = None,
        webhookUrl = None, rateLimits = None\<rparr>,
      endpoints = \<lparr>base = ''https://y.example'', auth = None, webhook_endpoint = None\<rparr>,
      createdAt = 0, updatedAt = 0\<rparr>"

definition example_manager :: IntegrationManager where
  "example_manager =
     (new_IntegrationManager (sconst 10) (sconst ''r''))
       \<lparr>integrations := [''y'' \<mapsto> example_config]\<rparr>"

definition limited_config :: IntegrationConfig where
  "limited_config =
     example_config\<lparr>settings := (settings example_config)\<lparr>rateLimits := Some example_limits\<rparr>\<rparr>"

definition example_limited :: IntegrationManager where
  "example_limited =
     example_manager
       \<lparr>integrations := [''y'' \<mapsto> limited_config],
        rateLimiters := [''y'' \<mapsto> \<lparr>requests = [0], limits = example_limits\<rparr>]\<rparr>"

definition fetch_200 :: Fetch where
  "fetch_200 request = Inr \<lparr>response_status = 200\<rparr>"

definition fetch_500 :: Fetch where
  "fetch_500 request = Inr \<lparr>response_status = 500\<rparr>"

definition fetch_down :: Fetch where
  "fetch_down request = Inl (Error ''network down'')"


definition nullish_handler :: WebhookHandler where
  "nullish_handler =
     \<lparr>handler_integrationId = ''z'', eventTypes = [''invoice.paid''],
      handler = (\<lambda>event. Inl Nullish)\<rparr>"

definition succeeding_handler :: WebhookHandler where
  "succeeding_handler =
     \<lparr>handler_integrationId = ''z'', eventTypes = [''invoice.paid''],
      handler = (\<lambda>event. Inr ())\<rparr>"

definition example_router :: IntegrationManager where
  "example_router =
     registerWebhookHandler succeeding_handler
       (registerWebhookHandler nullish_handler
          (new_IntegrationManager (sconst 0) (sconst ''r'')))"




section \<open>Properties of the rate limiter\<close>

lemma length_filter_imp:
  "(\<And>x. x \<in> set xs \<Longrightarrow> P x \<Longrightarrow> Q x) \<Longrightarrow> length (filter P xs) \<le> length (filter Q xs)"
  by (induction xs) auto

lemma filter_filter_stronger:
  "(\<And>x. Q x \<Longrightarrow> P x) \<Longrightarrow> filter Q (filter P xs) = filter Q xs"
  by (induction xs) auto

lemma filter_after_prune:
  assumes "log_agrees T A rl" "T \<le> now" "now - 86400000 \<le> c"
  shows "filter (\<lambda>a. a > c) (filter (\<lambda>time. time > now - 86400000) (requests rl))
         = filter (\<lambda>a. a > c) A"
proof -
  have "filter (\<lambda>a. a > c) (filter (\<lambda>time. time > now - 86400000) (requests rl))
        = filter (\<lambda>a. a > c) (requests rl)"
    using assms(3) by (intro filter_filter_stronger) simp
  also have "\<dots> = filter (\<lambda>a. a > c) A"
    using assms by (simp add: log_agrees_def)
  finally show ?thesis .
qed

lemma log_agrees_pruned:
  assumes "log_agrees T A rl" "T \<le> now"
  shows "log_agrees now A
           (rl\<lparr>requests := filter (\<lambda>time. time > now - 86400000) (requests rl)\<rparr>)"
  unfolding log_agrees_def
proof (intro conjI ballI allI impI)
  fix a assume "a \<in> set A"
  with assms show "a \<le> now" by (auto simp: log_agrees_def)
next
  fix c assume "now - 86400000 \<le> c"
  from filter_after_prune[OF assms this]
  show "filter (\<lambda>a. a > c)
          (requests (rl\<lparr>requests := filter (\<lambda>time. time > now - 86400000) (requests rl)\<rparr>))
        = filter (\<lambda>a. a > c) A" by simp
qed

lemma pruned_log:
  assumes "log_agrees T A rl" "T \<le> now"
  shows "filter (\<lambda>time. time > now - 86400000) (requests rl)
         = filter (\<lambda>a. a > now - 86400000) A"
  using assms by (simp add: log_agrees_def)

lemma in_window_snoc:
  "in_window w t (A @ [now]) = in_window w t A + (if t - w < now \<and> now \<le> t then 1 else 0)"
  by (simp add: in_window_def)

lemma in_window_le_recent:
  assumes "now \<le> t" "t - w < now"
  shows "in_window w t A \<le> int (length (filter (\<lambda>a. a > now - w) A))"
  unfolding in_window_def using assms
  by (intro iffD2[OF of_nat_le_iff] length_filter_imp) auto

lemma canMakeRequest_limits: "limits (snd (canMakeRequest rl now)) = limits rl"
  by (simp add: canMakeRequest_def Let_def)

lemma canMakeRequest_refused:
  "\<not> fst (canMakeRequest rl now) \<Longrightarrow>
   snd (canMakeRequest rl now) =
     rl\<lparr>requests := filter (\<lambda>time. time > now - 86400000) (requests rl)\<rparr>"
  by (auto simp: canMakeRequest_def Let_def split: if_splits)

lemma canMakeRequest_step:
  assumes agree: "log_agrees T A rl" and le: "T \<le> now"
    and lim: "within_limits (limits rl) A"
    and call: "canMakeRequest rl now = (admit, rl')"
  shows "log_agrees now (if admit then A @ [now] else A) rl' \<and>
         within_limits (limits rl) (if admit then A @ [now] else A)"
proof (cases admit)
  case False
  with call have r: "requests rl' = filter (\<lambda>time. time > now - 86400000) (requests rl)"
    by (auto simp: canMakeRequest_def Let_def split: if_splits)
  have "log_agrees now A rl'"
    using log_agrees_pruned[OF agree le] by (simp add: log_agrees_def r)
  with False lim show ?thesis by simp
next
  case True
  let ?reqs = "filter (\<lambda>time. time > now - 86400000) (requests rl)"
  from True call have r: "requests rl' = ?reqs @ [now]"
    and s: "int (length (filter (\<lambda>time. time > now - 1000) ?reqs))
              < requestsPerSecond (limits rl)"
    and h: "int (length (filter (\<lambda>time. time > now - 3600000) ?reqs))
              < requestsPerHour (limits rl)"
    and d: "int (length ?reqs) < requestsPerDay (limits rl)"
    by (auto simp: canMakeRequest_def Let_def split: if_splits)
  have s': "int (length (filter (\<lambda>a. a > now - 1000) A)) < requestsPerSecond (limits rl)"
    using s filter_after_prune[OF agree le, of "now - 1000"] by simp
  have h': "int (length (filter (\<lambda>a. a > now - 3600000) A)) < requestsPerHour (limits rl)"
    using h filter_after_prune[OF agree le, of "now - 3600000"] by simp
  have d': "int (length (filter (\<lambda>a. a > now - 86400000) A)) < requestsPerDay (limits rl)"
    using d pruned_log[OF agree le] by simp
  have 1: "log_agrees now (A @ [now]) rl'"
    using log_agrees_pruned[OF agree le] by (simp add: log_agrees_def r)
  have 2: "within_limits (limits rl) (A @ [now])"
    unfolding within_limits_def
  proof (intro allI conjI)
    fix t
    show "in_window 1000 t (A @ [now]) \<le> requestsPerSecond (limits rl)"
      using lim s' in_window_le_recent[of now t 1000 A]
      by (auto simp: in_window_snoc within_limits_def)
    show "in_window 3600000 t (A @ [now]) \<le> requestsPerHour (limits rl)"
      using lim h' in_window_le_recent[of now t 3600000 A]
      by (auto simp: in_window_snoc within_limits_def)
    show "in_window 86400000 t (A @ [now]) \<le> requestsPerDay (limits rl)"
      using lim d' in_window_le_recent[of now t 86400000 A]
      by (auto simp: in_window_snoc within_limits_def)
  qed
  from True 1 2 show ?thesis by simp
qed

lemma admitted_Cons:
  "admitted rl (t # ts) =
     (case canMakeRequest rl t of
        (admit, rl') \<Rightarrow> (if admit then [t] else []) @ admitted rl' ts)"
  by (simp add: admitted_def split: prod.splits)

lemma calls_within_limits:
  "log_agrees T A rl \<Longrightarrow> within_limits (limits rl) A \<Longrightarrow> sorted (T # ts) \<Longrightarrow>
   within_limits (limits rl) (A @ admitted rl ts)"
proof (induction ts arbitrary: T A rl)
  case Nil
  then show ?case by (simp add: admitted_def)
next
  case (Cons t ts)
  obtain admit rl' where c: "canMakeRequest rl t = (admit, rl')"
    by (cases "canMakeRequest rl t")
  from Cons.prems have le: "T \<le> t" and srt: "sorted (t # ts)" by auto
  from canMakeRequest_step[OF Cons.prems(1) le Cons.prems(2) c]
  have a: "log_agrees t (if admit then A @ [t] else A) rl'"
    and w: "within_limits (limits rl) (if admit then A @ [t] else A)" by auto
  have l: "limits rl' = limits rl" using canMakeRequest_limits[of rl t] c by simp
  from Cons.IH[OF a _ srt] w l
  have "within_limits (limits rl) ((if admit then A @ [t] else A) @ admitted rl' ts)" by simp
  then show ?case by (cases admit) (simp_all add: admitted_Cons c)
qed

text \<open>
  C1. Rate limiter soundness. A limiter is made with limits that are not negative and
  \<^verbatim>\<open>canMakeRequest\<close> is called at the nondecreasing clock values \<open>ts\<close>. Then, for
  every time \<open>t\<close>, the calls that returned true and whose timestamps lie in the
  trailing window of one second, one hour or 24 hours that ends at \<open>t\<close> are no more
  than the limit of that window. And a call that returns true has pushed its
  timestamp onto the log in the same call: the log it leaves is the pruned log
  followed by \<open>now\<close>.
\<close>

theorem rate_limiter_soundness:
  assumes "sorted ts"
    and "0 \<le> requestsPerSecond lims" "0 \<le> requestsPerHour lims" "0 \<le> requestsPerDay lims"
  shows "in_window 1000 t (admitted (new_RateLimiter lims) ts) \<le> requestsPerSecond lims
       \<and> in_window 3600000 t (admitted (new_RateLimiter lims) ts) \<le> requestsPerHour lims
       \<and> in_window 86400000 t (admitted (new_RateLimiter lims) ts) \<le> requestsPerDay lims
       \<and> (fst (canMakeRequest rl now) \<longrightarrow>
            requests (snd (canMakeRequest rl now)) =
              filter (\<lambda>time. time > now - 86400000) (requests rl) @ [now])"
proof -
  let ?rl = "new_RateLimiter lims"
  have w0: "within_limits (limits ?rl) []"
    using assms(2-4) by (simp add: within_limits_def in_window_def new_RateLimiter_def)
  have "within_limits (limits ?rl) ([] @ admitted ?rl ts)"
  proof (cases ts)
    case Nil
    then show ?thesis using w0 by (simp add: admitted_def)
  next
    case (Cons u us)
    have a0: "log_agrees u [] ?rl" by (simp add: log_agrees_def new_RateLimiter_def)
    from assms(1) Cons have "sorted (u # ts)" by auto
    from calls_within_limits[OF a0 w0 this] show ?thesis .
  qed
  then have "within_limits lims (admitted ?rl ts)" by (simp add: new_RateLimiter_def)
  moreover have "fst (canMakeRequest rl now) \<longrightarrow>
            requests (snd (canMakeRequest rl now)) =
              filter (\<lambda>time. time > now - 86400000) (requests rl) @ [now]"
    by (simp add: canMakeRequest_def Let_def)
  ultimately show ?thesis by (simp add: within_limits_def)
qed

theorem rate_limiter_soundness_witness:
  "sorted [0, 10, 1000 :: int]
   \<and> 0 \<le> requestsPerSecond example_limits \<and> 0 \<le> requestsPerHour example_limits
   \<and> 0 \<le> requestsPerDay example_limits
   \<and> admitted (new_RateLimiter example_limits) [0, 10, 1000] = [0, 1000]
   \<and> in_window 1000 1000 (admitted (new_RateLimiter example_limits) [0, 10, 1000]) \<le> 1
   \<and> in_window 3600000 1000 (admitted (new_RateLimiter example_limits) [0, 10, 1000]) \<le> 5
   \<and> in_window 86400000 1000 (admitted (new_RateLimiter example_limits) [0, 10, 1000]) \<le> 10
   \<and> fst (canMakeRequest (new_RateLimiter example_limits) 0)
   \<and> requests (snd (canMakeRequest (new_RateLimiter example_limits) 0)) = [0]"
  using rate_limiter_soundness [of "[0, 10, 1000]" example_limits 1000
      "new_RateLimiter example_limits" 0]
  by (simp add: example_limits_def admitted_def canMakeRequest_def new_RateLimiter_def)

text \<open>
  C2. A refused call leaves the admissions unchanged. When \<^verbatim>\<open>canMakeRequest\<close> returns
  false, the log it leaves is the log it found without the entries older than 24
  hours: nothing is appended and the limits are the same. So the number of logged
  timestamps in the window of one second, one hour or 24 hours is the same after the
  call as before it, at the time of the call and at any later time \<open>t\<close>.
\<close>

theorem rejection_keeps_counts:
  assumes "\<not> fst (canMakeRequest rl now)" and "now \<le> t"
  shows "requests (snd (canMakeRequest rl now))
           = filter (\<lambda>time. time > now - 86400000) (requests rl)
       \<and> limits (snd (canMakeRequest rl now)) = limits rl
       \<and> filter (\<lambda>time. time > t - 1000) (requests (snd (canMakeRequest rl now)))
           = filter (\<lambda>time. time > t - 1000) (requests rl)
       \<and> filter (\<lambda>time. time > t - 3600000) (requests (snd (canMakeRequest rl now)))
           = filter (\<lambda>time. time > t - 3600000) (requests rl)
       \<and> filter (\<lambda>time. time > t - 86400000) (requests (snd (canMakeRequest rl now)))
           = filter (\<lambda>time. time > t - 86400000) (requests rl)"
proof -
  have r: "requests (snd (canMakeRequest rl now))
             = filter (\<lambda>time. time > now - 86400000) (requests rl)"
    using canMakeRequest_refused[OF assms(1)] by simp
  have f: "filter (\<lambda>time. time > c) (filter (\<lambda>time. time > now - 86400000) (requests rl))
             = filter (\<lambda>time. time > c) (requests rl)" if "now - 86400000 \<le> c" for c
    using that by (intro filter_filter_stronger) simp
  have a: "now - 86400000 \<le> t - 1000" "now - 86400000 \<le> t - 3600000"
    "now - 86400000 \<le> t - 86400000"
    using assms(2) by simp_all
  show ?thesis
    unfolding r
    by (intro conjI refl canMakeRequest_limits f[OF a(1)] f[OF a(2)] f[OF a(3)])
qed

theorem rejection_keeps_counts_witness:
  "\<not> fst (canMakeRequest \<lparr>requests = [-90000000, 0], limits = example_limits\<rparr> 10)
   \<and> (10::int) \<le> 500
   \<and> requests (snd (canMakeRequest \<lparr>requests = [-90000000, 0], limits = example_limits\<rparr> 10)) = [0]
   \<and> filter (\<lambda>time. time > 500 - 1000)
         (requests (snd (canMakeRequest \<lparr>requests = [-90000000, 0], limits = example_limits\<rparr> 10)))
       = filter (\<lambda>time. time > 500 - 1000) [-90000000, 0]"
  using rejection_keeps_counts [of "\<lparr>requests = [-90000000, 0], limits = example_limits\<rparr>" 10 500]
  by (simp add: example_limits_def canMakeRequest_def)

section \<open>Properties of the event log and of the metrics\<close>

lemma logEvent_eq:
  "logEvent i ty dir st dat err meta m =
     (Inr (),
      m\<lparr>events := push_event (events m)
           (built_event
              \<lparr>arg_integrationId = i, arg_type = ty, arg_direction = dir, arg_status = st,
               arg_data = dat, arg_error = err, arg_metadata = meta\<rparr> m),
        clock := stl (stl (clock m)), random := stl (random m)\<rparr>)"
  by (simp add: logEvent_def andThen_def Date_now_def Math_random_def built_event_def)

lemma logEvent_args_eq:
  "logEvent_args a m =
     (Inr (), m\<lparr>events := push_event (events m) (built_event a m),
                clock := stl (stl (clock m)), random := stl (random m)\<rparr>)"
  by (cases a) (simp add: logEvent_args_def logEvent_eq)

lemma push_event_slice: "push_event evs e = slice_last 10000 (evs @ [e])"
  by (simp add: push_event_def slice_last_def Let_def)

lemma slice_last_append:
  "slice_last n (slice_last n xs @ ys) = slice_last n (xs @ ys)"
proof (cases "length xs \<le> n")
  case True
  then show ?thesis by (simp add: slice_last_def)
next
  case False
  then have "length xs - n + n = length xs"
    and "length xs + length ys - length xs + (length xs - n) = length xs + length ys - n"
    by simp_all
  then show ?thesis by (simp add: slice_last_def)
qed

lemma length_slice_last: "length (slice_last n xs) \<le> n"
  by (simp add: slice_last_def)

lemma slice_last_short: "length xs \<le> n \<Longrightarrow> slice_last n xs = xs"
  by (simp add: slice_last_def)

lemma events_logEvents:
  "events (logEvents as m) =
     (if as = [] then events m else slice_last 10000 (events m @ built_events as m))"
proof (induction as arbitrary: m)
  case Nil
  then show ?case by simp
next
  case (Cons a as)
  let ?m' = "snd (logEvent_args a m)"
  have e: "events ?m' = slice_last 10000 (events m @ [built_event a m])"
    by (simp add: logEvent_args_eq push_event_slice)
  show ?case
  proof (cases "as = []")
    case True
    then show ?thesis by (simp add: e)
  next
    case False
    then have "events (logEvents (a # as) m)
                 = slice_last 10000
                     (slice_last 10000 (events m @ [built_event a m]) @ built_events as ?m')"
      by (simp add: Cons.IH e)
    also have "\<dots> = slice_last 10000 ((events m @ [built_event a m]) @ built_events as ?m')"
      by (rule slice_last_append)
    finally show ?thesis by simp
  qed
qed

lemma built_events_args:
  "map (\<lambda>e. (integrationId e, event_type e, direction e, event_status e, data e, error e,
              metadata e)) (built_events as m)
   = map (\<lambda>a. (arg_integrationId a, arg_type a, arg_direction a, arg_status a, arg_data a,
               arg_error a, arg_metadata a)) as"
  by (induction as arbitrary: m) (simp_all add: built_event_def)

text \<open>
  C3. Event log bound and FIFO eviction. Starting from a log of at most 10000 events
  (the empty log of a new manager is one), after any sequence of \<^verbatim>\<open>logEvent\<close> calls the
  log has at most 10000 events, and it is the end of the sequence of everything
  appended: the old log followed by the events the calls built, in call order, with
  the oldest dropped from the front once there are more than 10000. Each call builds
  one event, from its arguments.
\<close>

theorem event_log_bound:
  assumes "length (events m) \<le> 10000"
  shows "length (events (logEvents as m)) \<le> 10000
       \<and> events (logEvents as m)
           = drop (length (events m @ built_events as m) - 10000) (events m @ built_events as m)
       \<and> map (\<lambda>e. (integrationId e, event_type e, direction e, event_status e, data e, error e,
                   metadata e)) (built_events as m)
           = map (\<lambda>a. (arg_integrationId a, arg_type a, arg_direction a, arg_status a,
                       arg_data a, arg_error a, arg_metadata a)) as"
proof -
  have 1: "events (logEvents as m) = slice_last 10000 (events m @ built_events as m)"
    using assms by (simp add: events_logEvents slice_last_short)
  have 2: "length (events (logEvents as m)) \<le> 10000"
    unfolding 1 by (rule length_slice_last)
  from 1 have 3: "events (logEvents as m)
           = drop (length (events m @ built_events as m) - 10000) (events m @ built_events as m)"
    by (simp only: slice_last_def)
  from 2 3 built_events_args[of as m] show ?thesis by (intro conjI)
qed

theorem event_log_bound_witness:
  "length (events (new_IntegrationManager (sconst 0) (sconst ''r''))) \<le> 10000
   \<and> length (events (logEvents [example_args Success, example_args Failed]
         (new_IntegrationManager (sconst 0) (sconst ''r'')))) \<le> 10000
   \<and> map event_status (events (logEvents [example_args Success, example_args Failed]
         (new_IntegrationManager (sconst 0) (sconst ''r'')))) = [Success, Failed]"
  using event_log_bound [of "new_IntegrationManager (sconst 0) (sconst ''r'')"
      "[example_args Success, example_args Failed]"]
  by (simp add: new_IntegrationManager_def built_event_def example_args_def)







section \<open>Properties of the webhook router and of the sync orchestrator\<close>

lemma read_message_eq:
  "read_message caught m =
     (if caught = Nullish then (Inl TypeError, m) else (Inr (caught_message caught), m))"
  by (cases caught) (simp_all add: read_message_def caught_message_def ret_def throw_def)

lemma own_logEvent:
  "own (logEvent i ty dir st dat err meta) m
     = (Inr (), snd (logEvent i ty dir st dat err meta m))"
  by (simp add: own_def logEvent_eq)

lemma runHandler_eq:
  "runHandler i dat h m =
     (if rejects_nullish dat h then (Inl TypeError, m)
      else logEvent_args (handler_log i dat h) m)"
proof (cases "handler h dat")
  case (Inr u)
  then show ?thesis
    by (simp add: runHandler_def tryCatch_def andThen_def external_def own_logEvent
        rejects_nullish_def handler_log_def logEvent_args_def logEvent_eq)
next
  case (Inl caught)
  then show ?thesis
    by (simp add: runHandler_def tryCatch_def andThen_def external_def read_message_eq
        rejects_nullish_def handler_log_def logEvent_args_def logEvent_eq)
qed

text \<open>
  The loop stops at the first handler that rejects with \<^verbatim>\<open>null\<close> or \<^verbatim>\<open>undefined\<close>: the
  \<^verbatim>\<open>TypeError\<close> of its \<^verbatim>\<open>catch\<close> block leaves \<^verbatim>\<open>handleWebhook\<close>, that handler is not
  logged and the handlers after it are not run.
\<close>

lemma runHandlers_eq:
  "runHandlers i dat hs m =
     (if \<exists>h\<in>set hs. rejects_nullish dat h
      then (Inl TypeError,
            logEvents (map (handler_log i dat) (takeWhile (\<lambda>h. \<not> rejects_nullish dat h) hs)) m)
      else (Inr (), logEvents (map (handler_log i dat) hs) m))"
proof (induction hs arbitrary: m)
  case Nil
  show ?case by (simp add: ret_def)
next
  case (Cons h hs)
  show ?case
  proof (cases "rejects_nullish dat h")
    case True
    then show ?thesis by (simp add: andThen_def runHandler_eq)
  next
    case False
    then have "runHandler i dat h m = (Inr (), snd (logEvent_args (handler_log i dat h) m))"
      by (simp add: runHandler_eq logEvent_args_eq)
    with False show ?thesis by (simp add: andThen_def Cons.IH)
  qed
qed

text \<open>
  When no matching handler rejects with \<^verbatim>\<open>null\<close> or \<^verbatim>\<open>undefined\<close>, the handlers are
  isolated: \<^verbatim>\<open>handleWebhook\<close> returns normally and leaves the manager as one
  \<^verbatim>\<open>logEvent\<close> call per matching handler does, in registration order, \<^verbatim>\<open>success\<close> for
  a handler that returned and \<^verbatim>\<open>failed\<close>, with the message of the value caught, for
  one that threw.
\<close>

lemma handleWebhook_isolated:
  assumes "\<forall>h\<in>set (matchingHandlers m i ty). \<not> rejects_nullish dat h"
  shows "handleWebhook i ty dat m
           = (Inr (), logEvents (map (handler_log i dat) (matchingHandlers m i ty)) m)"
    and "events (snd (handleWebhook i ty dat m))
           = (if matchingHandlers m i ty = [] then events m
              else slice_last 10000
                     (events m @ built_events (map (handler_log i dat) (matchingHandlers m i ty)) m))"
    and "map (\<lambda>e. (integrationId e, event_type e, direction e, event_status e, error e))
           (built_events (map (handler_log i dat) (matchingHandlers m i ty)) m)
         = map (\<lambda>h. case handler h dat of
                      Inr _ \<Rightarrow> (i, Webhook, Inbound, Success, None)
                    | Inl caught \<Rightarrow> (i, Webhook, Inbound, Failed, caught_message caught))
             (matchingHandlers m i ty)"
proof -
  let ?hs = "matchingHandlers m i ty"
  show r: "handleWebhook i ty dat m = (Inr (), logEvents (map (handler_log i dat) ?hs) m)"
    using assms by (simp add: handleWebhook_def runHandlers_eq)
  show "events (snd (handleWebhook i ty dat m))
           = (if ?hs = [] then events m
              else slice_last 10000 (events m @ built_events (map (handler_log i dat) ?hs) m))"
    unfolding r by (simp add: events_logEvents)
  have b: "map (\<lambda>e. (integrationId e, event_type e, direction e, event_status e, error e))
         (built_events as m)
       = map (\<lambda>a. (arg_integrationId a, arg_type a, arg_direction a, arg_status a, arg_error a)) as"
    for as m
    by (induction as arbitrary: m) (simp_all add: built_event_def)
  show "map (\<lambda>e. (integrationId e, event_type e, direction e, event_status e, error e))
           (built_events (map (handler_log i dat) ?hs) m)
         = map (\<lambda>h. case handler h dat of
                      Inr _ \<Rightarrow> (i, Webhook, Inbound, Success, None)
                    | Inl caught \<Rightarrow> (i, Webhook, Inbound, Failed, caught_message caught)) ?hs"
    unfolding b by (simp add: handler_log_def split: sum.splits)
qed

text \<open>
  C5. Webhook handler isolation fails in the code when a handler rejects with
  \<^verbatim>\<open>null\<close> or \<^verbatim>\<open>undefined\<close>. Two handlers are registered for the same integration and
  event type: the first does \<^verbatim>\<open>throw undefined\<close>, the second returns. The dispatch of
  that event throws a \<^verbatim>\<open>TypeError\<close> to its caller and leaves the manager as it was:
  the first handler's failure is not logged, and the second handler is not run, so
  its success is not logged either.
\<close>

theorem webhook_nullish_rejection_escapes:
  "matchingHandlers example_router ''z'' ''invoice.paid'' = [nullish_handler, succeeding_handler]
   \<and> handler nullish_handler JNull = Inl Nullish
   \<and> handler succeeding_handler JNull = Inr ()
   \<and> handleWebhook ''z'' ''invoice.paid'' JNull example_router = (Inl TypeError, example_router)
   \<and> events example_router = []"
proof -
  have mh: "matchingHandlers example_router ''z'' ''invoice.paid''
              = [nullish_handler, succeeding_handler]"
    by (simp add: example_router_def registerWebhookHandler_def new_IntegrationManager_def
        matchingHandlers_def nullish_handler_def succeeding_handler_def)
  have n: "handler nullish_handler JNull = Inl Nullish"
    by (simp add: nullish_handler_def)
  have s: "handler succeeding_handler JNull = Inr ()"
    by (simp add: succeeding_handler_def)
  have first: "runHandler ''z'' JNull nullish_handler example_router
                 = (Inl TypeError, example_router)"
    using n by (simp add: runHandler_eq rejects_nullish_def)
  have r: "handleWebhook ''z'' ''invoice.paid'' JNull example_router
             = (Inl TypeError, example_router)"
    unfolding handleWebhook_def mh by (simp add: andThen_def first)
  have ev: "events example_router = []"
    by (simp add: example_router_def registerWebhookHandler_def new_IntegrationManager_def)
  from mh n s r ev show ?thesis by (intro conjI)
qed

lemma updateIntegration_eq:
  "integrations m i = Some c \<Longrightarrow>
   updateIntegration i u m =
     (Inr (), m\<lparr>integrations := (integrations m)(i \<mapsto> spread c u (shd (clock m))),
                clock := stl (clock m)\<rparr>)"
  by (simp add: updateIntegration_def andThen_def Date_now_def)

lemma updateIntegration_unknown:
  "integrations m i = None \<Longrightarrow> updateIntegration i u m = (Inl (not_found i), m)"
  by (simp add: updateIntegration_def throw_def)

lemma spread_settings:
  "spread c (no_updates\<lparr>upd_settings := Some s\<rparr>) t = c\<lparr>settings := s, updatedAt := t\<rparr>"
  by (cases c) (simp add: spread_def no_updates_def override_def)

lemma spread_status:
  "spread c (with_status s) t = c\<lparr>status := s, updatedAt := t\<rparr>"
  by (cases c) (simp add: spread_def with_status_def no_updates_def override_def)


lemma syncData_failed:
  assumes "integrations m i = Some c" "syncEnabled (settings c)"
    and "steps_outcome pull push i d = Inl caught" "caught \<noteq> Nullish"
  shows "syncData pull push i d m
         = logEvent i Sync Outbound Failed (sync_data d) (caught_message caught) None m"
  using assms
  by (auto simp: syncData_def steps_outcome_def tryCatch_def andThen_def external_def ret_def
      read_message_eq split: sum.splits if_splits)

lemma syncData_success:
  assumes "integrations m i = Some c" "syncEnabled (settings c)"
    and "steps_outcome pull push i d = Inr ()"
  shows "syncData pull push i d m
         = logEvent i Sync Outbound Success (sync_data d) None None
             (m\<lparr>integrations := (integrations m)(i \<mapsto>
                  c\<lparr>settings := (settings c)\<lparr>lastSync := Some (shd (clock m))\<rparr>,
                    updatedAt := shd (stl (clock m))\<rparr>),
                clock := stl (stl (clock m))\<rparr>)"
  using assms
  by (auto simp: syncData_def steps_outcome_def tryCatch_def andThen_def external_def ret_def
      own_def logEvent_eq updateIntegration_eq spread_settings Date_now_def
      split: sum.splits if_splits)

lemma syncData_noop:
  "(\<And>c. integrations m i = Some c \<Longrightarrow> \<not> syncEnabled (settings c)) \<Longrightarrow>
   syncData pull push i d m = (Inr (), m)"
  by (cases "integrations m i") (simp_all add: syncData_def ret_def)

lemma own_steps_return: "steps_outcome pullData pushData i d = Inr ()"
  by (simp add: steps_outcome_def pullData_def pushData_def)

lemma syncData_own_steps: "fst (syncData pullData pushData i d m) = Inr ()"
proof (cases "integrations m i")
  case None
  then show ?thesis by (simp add: syncData_def ret_def)
next
  case (Some c)
  show ?thesis
  proof (cases "syncEnabled (settings c)")
    case False
    with Some show ?thesis by (simp add: syncData_def ret_def)
  next
    case True
    from syncData_success[OF Some True own_steps_return] show ?thesis
      by (simp add: logEvent_eq)
  qed
qed


section \<open>Properties of the registry and of the dispatcher\<close>

lemma makeApiCall_unknown:
  "integrations m i = None \<Longrightarrow> makeApiCall fetch i meth ep dat hdrs m = (Inl (not_found i), m)"
  by (simp add: makeApiCall_def throw_def)

lemma testIntegration_unknown:
  "integrations m i = None \<Longrightarrow> testIntegration fetch i m = (Inl (not_found i), m)"
  by (simp add: testIntegration_def throw_def)

text \<open>
  C7 (as amended). For an integration id that is not in the registry:
  \<^verbatim>\<open>updateIntegration\<close>, \<^verbatim>\<open>testIntegration\<close> and \<^verbatim>\<open>makeApiCall\<close> throw the error
  ``Integration <id> not found'' to their caller and leave the manager as it was;
  \<^verbatim>\<open>syncData\<close> does not throw: it returns normally and leaves the manager as it was,
  whatever the direction and the steps.
\<close>

theorem unknown_integration:
  assumes "integrations m i = None"
  shows "updateIntegration i u m = (Inl (not_found i), m)
       \<and> testIntegration fetch i m = (Inl (not_found i), m)
       \<and> makeApiCall fetch i meth ep dat hdrs m = (Inl (not_found i), m)
       \<and> message (not_found i) = ''Integration '' @ i @ '' not found''
       \<and> syncData pull push i d m = (Inr (), m)"
proof -
  have sync: "syncData pull push i d m = (Inr (), m)"
    using assms by (simp add: syncData_def ret_def)
  have msg: "message (not_found i) = ''Integration '' @ i @ '' not found''"
    by (simp add: not_found_def)
  from updateIntegration_unknown[OF assms, of u] testIntegration_unknown[OF assms, of fetch]
    makeApiCall_unknown[OF assms, of fetch meth ep dat hdrs] msg sync
  show ?thesis by (intro conjI)
qed

theorem unknown_integration_witness:
  "integrations (new_IntegrationManager (sconst 0) (sconst ''r'')) ''unknown'' = None
   \<and> fst (makeApiCall fetch_200 ''unknown'' ''GET'' ''/health'' JUndefined Map.empty
            (new_IntegrationManager (sconst 0) (sconst ''r'')))
       = Inl (Error ''Integration unknown not found'')
   \<and> fst (updateIntegration ''unknown'' no_updates
            (new_IntegrationManager (sconst 0) (sconst ''r'')))
       = Inl (Error ''Integration unknown not found'')
   \<and> fst (testIntegration fetch_200 ''unknown''
            (new_IntegrationManager (sconst 0) (sconst ''r'')))
       = Inl (Error ''Integration unknown not found'')
   \<and> fst (syncData pullData pushData ''unknown'' Bidirectional
            (new_IntegrationManager (sconst 0) (sconst ''r''))) = Inr ()"
  using unknown_integration [where m = "new_IntegrationManager (sconst 0) (sconst ''r'')"
      and i = "''unknown''" and fetch = fetch_200 and meth = "''GET''" and ep = "''/health''"
      and dat = JUndefined and hdrs = Map.empty and u = no_updates
      and pull = pullData and push = pushData and d = Bidirectional]
  by (simp add: new_IntegrationManager_def not_found_def)

text \<open>
  The claim C7 as stated fails for \<^verbatim>\<open>syncData\<close>: on a new manager, where no integration
  is registered, a sync of the id \<^verbatim>\<open>unknown\<close> returns normally and changes nothing.
\<close>

theorem sync_unknown_counterexample:
  "integrations (new_IntegrationManager (sconst 0) (sconst ''r'')) ''unknown'' = None
   \<and> syncData pullData pushData ''unknown'' Pull (new_IntegrationManager (sconst 0) (sconst ''r''))
       = (Inr (), new_IntegrationManager (sconst 0) (sconst ''r''))"
  by (simp add: new_IntegrationManager_def syncData_def ret_def)

lemma checkRateLimit_none:
  "rateLimiters m i = None \<Longrightarrow> checkRateLimit i m = (Inr (), m)"
  by (simp add: checkRateLimit_def ret_def)

lemma checkRateLimit_some:
  "rateLimiters m i = Some rl \<Longrightarrow>
   checkRateLimit i m =
     ((if fst (canMakeRequest rl (shd (clock m))) then Inr ()
       else Inl (Error ''Rate limit exceeded'')),
      m\<lparr>rateLimiters := (rateLimiters m)(i \<mapsto> snd (canMakeRequest rl (shd (clock m)))),
        clock := stl (clock m)\<rparr>)"
  by (simp add: checkRateLimit_def andThen_def Date_now_def ret_def throw_def split: prod.splits)

lemma makeApiCall_refused:
  assumes "integrations m i = Some c" "rateLimiters m i = Some rl"
    and "\<not> fst (canMakeRequest rl (shd (clock m)))"
  shows "makeApiCall fetch i meth ep dat hdrs m =
     (Inl (Error ''Rate limit exceeded''),
      m\<lparr>rateLimiters := (rateLimiters m)(i \<mapsto> snd (canMakeRequest rl (shd (clock m)))),
        clock := stl (clock m)\<rparr>)"
  using assms by (simp add: makeApiCall_def andThen_def checkRateLimit_some)

text \<open>
  C9. Rate-limit rejection in the dispatcher. When a limiter is bound to a registered
  integration and its \<^verbatim>\<open>canMakeRequest\<close> returns false at the clock value the call
  reads, \<^verbatim>\<open>makeApiCall\<close> throws ``Rate limit exceeded'', the event log is as it was,
  and the outcome is the same whatever \<^verbatim>\<open>fetch\<close> would do: no request is sent.
\<close>

theorem rate_limit_rejection:
  assumes "integrations m i = Some c" "rateLimiters m i = Some rl"
    and "\<not> fst (canMakeRequest rl (shd (clock m)))"
  shows "fst (makeApiCall fetch i meth ep dat hdrs m) = Inl (Error ''Rate limit exceeded'')
       \<and> events (snd (makeApiCall fetch i meth ep dat hdrs m)) = events m
       \<and> makeApiCall fetch' i meth ep dat hdrs m = makeApiCall fetch i meth ep dat hdrs m"
proof -
  let ?m' = "m\<lparr>rateLimiters := (rateLimiters m)(i \<mapsto> snd (canMakeRequest rl (shd (clock m)))),
               clock := stl (clock m)\<rparr>"
  have r: "makeApiCall f i meth ep dat hdrs m = (Inl (Error ''Rate limit exceeded''), ?m')" for f
    by (rule makeApiCall_refused[OF assms])
  have thrown: "fst (makeApiCall fetch i meth ep dat hdrs m) = Inl (Error ''Rate limit exceeded'')"
    by (simp add: r)
  have log: "events (snd (makeApiCall fetch i meth ep dat hdrs m)) = events m"
    by (simp add: r)
  have same: "makeApiCall fetch' i meth ep dat hdrs m = makeApiCall fetch i meth ep dat hdrs m"
    by (simp only: r)
  from thrown log same show ?thesis by (intro conjI)
qed

theorem rate_limit_rejection_witness:
  "integrations example_limited ''y'' = Some limited_config
   \<and> rateLimiters example_limited ''y'' = Some \<lparr>requests = [0], limits = example_limits\<rparr>
   \<and> \<not> fst (canMakeRequest \<lparr>requests = [0], limits = example_limits\<rparr> (shd (clock example_limited)))
   \<and> fst (makeApiCall fetch_200 ''y'' ''GET'' ''/health'' JUndefined Map.empty example_limited)
       = Inl (Error ''Rate limit exceeded'')
   \<and> events (snd (makeApiCall fetch_200 ''y'' ''GET'' ''/health'' JUndefined Map.empty example_limited))
       = []"
  using rate_limit_rejection [of example_limited "''y''" limited_config
      "\<lparr>requests = [0], limits = example_limits\<rparr>" fetch_200 "''GET''" "''/health''" JUndefined Map.empty]
  by (simp add: example_limited_def limited_config_def example_manager_def
      new_IntegrationManager_def canMakeRequest_def example_limits_def)


lemma checkRateLimit_frame:
  "integrations (snd (checkRateLimit i m)) = integrations m
   \<and> events (snd (checkRateLimit i m)) = events m
   \<and> webhookHandlers (snd (checkRateLimit i m)) = webhookHandlers m"
  by (cases "rateLimiters m i") (simp_all add: checkRateLimit_none checkRateLimit_some)

lemma checkRateLimit_limiters:
  "rateLimiters (snd (checkRateLimit i m)) =
     (case rateLimiters m i of
        None \<Rightarrow> rateLimiters m
      | Some rl \<Rightarrow> (rateLimiters m)(i \<mapsto> snd (canMakeRequest rl (shd (clock m)))))"
  by (cases "rateLimiters m i") (simp_all add: checkRateLimit_none checkRateLimit_some)

lemma makeApiCall_frame:
  assumes "integrations m i = Some c"
  shows "integrations (snd (makeApiCall fetch i meth ep dat hdrs m)) = integrations m
       \<and> rateLimiters (snd (makeApiCall fetch i meth ep dat hdrs m))
           = rateLimiters (snd (checkRateLimit i m))"
proof -
  obtain r0 m0 where c0: "checkRateLimit i m = (r0, m0)" by (cases "checkRateLimit i m")
  have i0: "integrations m0 = integrations m"
    using checkRateLimit_frame[of i m] c0 by simp
  show ?thesis
    using assms c0 i0
    by (simp add: makeApiCall_def andThen_def tryCatch_def external_def Date_now_def
        logEvent_eq ret_def throw_def split: sum.splits)
qed

lemma makeApiCall_response:
  assumes "integrations m i = Some c"
    and "fst (makeApiCall fetch i meth ep dat hdrs m) = Inr response"
  shows "events (snd (makeApiCall fetch i meth ep dat hdrs m))
     = push_event (events m)
         (built_event
            \<lparr>arg_integrationId = i, arg_type = ApiCall, arg_direction = Outbound,
             arg_status = (if ok response then Success else Failed),
             arg_data = call_data meth ep dat,
             arg_error = (if ok response then None
                          else Some (''HTTP '' @ show_int (response_status response))),
             arg_metadata =
               Some \<lparr>endpoint = Some ep, httpStatus = Some (response_status response),
                     responseTime = Some (shd (stl (clock (snd (checkRateLimit i m))))
                                          - shd (clock (snd (checkRateLimit i m))))\<rparr>\<rparr>
            ((snd (checkRateLimit i m))
               \<lparr>clock := stl (stl (clock (snd (checkRateLimit i m))))\<rparr>))"
proof -
  obtain r0 m0 where c0: "checkRateLimit i m = (r0, m0)" by (cases "checkRateLimit i m")
  have e0: "events m0 = events m"
    using checkRateLimit_frame[of i m] c0 by simp
  show ?thesis
    using assms c0 e0
    by (auto simp: makeApiCall_def andThen_def tryCatch_def external_def Date_now_def
        logEvent_eq ret_def throw_def built_event_def split: sum.splits)
qed

lemma testIntegration_eq:
  assumes "integrations m i = Some c"
  shows "testIntegration fetch i m =
     (case makeApiCall fetch i ''GET'' (base (endpoints c) @ ''/health'') JUndefined Map.empty m of
        (Inr response, m1) \<Rightarrow>
          (Inr (ok response),
           m1\<lparr>integrations := (integrations m1)(i \<mapsto>
                 c\<lparr>status := (if ok response then Active else StatusError),
                   updatedAt := shd (clock m1)\<rparr>),
              clock := stl (clock m1)\<rparr>)
      | (Inl err, m1) \<Rightarrow>
          (Inr False,
           snd (logEvent i ErrorEvent Outbound Failed JNull (Some (message err)) None
             (m1\<lparr>integrations := (integrations m1)(i \<mapsto>
                   c\<lparr>status := StatusError, updatedAt := shd (clock m1)\<rparr>),
                 clock := stl (clock m1)\<rparr>))))"
proof -
  let ?call = "makeApiCall fetch i ''GET'' (base (endpoints c) @ ''/health'') JUndefined Map.empty m"
  obtain r m1 where c1: "?call = (r, m1)" by (cases ?call)
  have "integrations m1 = integrations m"
    using makeApiCall_frame[OF assms, of fetch "''GET''" "base (endpoints c) @ ''/health''"
        JUndefined Map.empty] c1 by simp
  then have i1: "integrations m1 i = Some c" using assms by simp
  have u: "integrations m2 i = Some c \<Longrightarrow> updateIntegration i (with_status s) m2 =
     (Inr (), m2\<lparr>integrations := (integrations m2)(i \<mapsto> c\<lparr>status := s, updatedAt := shd (clock m2)\<rparr>),
                clock := stl (clock m2)\<rparr>)" for m2 s
    by (simp add: updateIntegration_eq spread_status)
  show ?thesis
    using assms c1 i1
    by (cases r)
      (simp_all add: testIntegration_def tryCatch_def andThen_def ret_def u logEvent_eq)
qed

lemma makeApiCall_logged:
  assumes "integrations m i = Some c"
    and "fst (makeApiCall fetch i meth ep dat hdrs m) = Inr response"
  shows "\<exists>ev. events (snd (makeApiCall fetch i meth ep dat hdrs m)) = push_event (events m) ev
           \<and> event_type ev = ApiCall
           \<and> event_status ev = (if ok response then Success else Failed)
           \<and> error ev = (if ok response then None
                else Some (''HTTP '' @ show_int (response_status response)))"
  by (rule exI, rule conjI, rule makeApiCall_response[OF assms]) (simp add: built_event_def)

text \<open>
  C8 (as amended). For a registered integration \<^verbatim>\<open>testIntegration\<close> never throws, and
  its outcome follows the health call \<^verbatim>\<open>makeApiCall(id, 'GET', base + '/health')\<close>:
  a response that is \<open>ok\<close> (2xx) gives \<open>true\<close> and status \<^verbatim>\<open>active\<close>; a response that
  is not gives \<open>false\<close> and status \<^verbatim>\<open>error\<close>; in both cases the only event of the call
  is the dispatcher's own \<^verbatim>\<open>api_call\<close> event (\<^verbatim>\<open>success\<close>, or \<^verbatim>\<open>failed\<close> with
  ``HTTP <status>''), and \<^verbatim>\<open>testIntegration\<close> appends nothing. A thrown error (a
  transport error, or the rate-limit refusal) gives \<open>false\<close>, status \<^verbatim>\<open>error\<close>, and
  one more event, of type \<^verbatim>\<open>error\<close>, with the message of the error.
\<close>

theorem testIntegration_outcome:
  assumes "integrations m i = Some c"
  shows "let call = makeApiCall fetch i ''GET'' (base (endpoints c) @ ''/health'') JUndefined
                      Map.empty m;
             test = testIntegration fetch i m
         in (\<forall>response. fst call = Inr response \<and> ok response \<longrightarrow>
               fst test = Inr True
               \<and> map_option status (integrations (snd test) i) = Some Active
               \<and> events (snd test) = events (snd call))
          \<and> (\<forall>response. fst call = Inr response \<and> \<not> ok response \<longrightarrow>
               fst test = Inr False
               \<and> map_option status (integrations (snd test) i) = Some StatusError
               \<and> events (snd test) = events (snd call))
          \<and> (\<forall>response. fst call = Inr response \<longrightarrow>
               (\<exists>ev. events (snd call) = push_event (events m) ev
                  \<and> event_type ev = ApiCall
                  \<and> event_status ev = (if ok response then Success else Failed)
                  \<and> error ev = (if ok response then None
                       else Some (''HTTP '' @ show_int (response_status response)))))
          \<and> (\<forall>err. fst call = Inl err \<longrightarrow>
               fst test = Inr False
               \<and> map_option status (integrations (snd test) i) = Some StatusError
               \<and> events (snd test)
                   = push_event (events (snd call))
                       (built_event
                          \<lparr>arg_integrationId = i, arg_type = ErrorEvent,
                           arg_direction = Outbound, arg_status = Failed, arg_data = JNull,
                           arg_error = Some (message err), arg_metadata = None\<rparr>
                          ((snd call)\<lparr>clock := stl (clock (snd call))\<rparr>)))"
proof -
  let ?call = "makeApiCall fetch i ''GET'' (base (endpoints c) @ ''/health'') JUndefined Map.empty m"
  obtain r m1 where c1: "?call = (r, m1)" by (cases ?call)
  note t = testIntegration_eq[OF assms, of fetch, unfolded c1]
  have ev: "\<exists>ev. events m1 = push_event (events m) ev
                  \<and> event_type ev = ApiCall
                  \<and> event_status ev = (if ok response then Success else Failed)
                  \<and> error ev = (if ok response then None
                       else Some (''HTTP '' @ show_int (response_status response)))"
    if "r = Inr response" for response
    using makeApiCall_logged[OF assms, of fetch "''GET''" "base (endpoints c) @ ''/health''"
        JUndefined Map.empty response] that c1
    by simp
  show ?thesis
    unfolding Let_def c1 t
    using ev by (cases r) (simp_all add: logEvent_eq built_event_def)
qed

text \<open>
  The claim C8 as stated fails for a response that is not 2xx: with HTTP 500 the
  health check returns false, and the log holds the \<^verbatim>\<open>api_call\<close> event only; no event
  of type \<^verbatim>\<open>error\<close> is recorded.
\<close>

theorem health_check_500_counterexample:
  "integrations example_manager ''y'' = Some example_config
   \<and> fst (makeApiCall fetch_500 ''y'' ''GET'' (base (endpoints example_config) @ ''/health'')
            JUndefined Map.empty example_manager) = Inr \<lparr>response_status = 500\<rparr>
   \<and> \<not> ok \<lparr>response_status = 500\<rparr>
   \<and> fst (testIntegration fetch_500 ''y'' example_manager) = Inr False
   \<and> map event_type (events (snd (testIntegration fetch_500 ''y'' example_manager))) = [ApiCall]"
  by (simp add: example_manager_def example_config_def new_IntegrationManager_def
      testIntegration_def makeApiCall_def checkRateLimit_def tryCatch_def andThen_def
      external_def ret_def throw_def Date_now_def logEvent_eq fetch_500_def ok_def
      updateIntegration_def push_event_slice slice_last_def built_event_def)

theorem testIntegration_outcome_witness:
  "integrations example_manager ''y'' = Some example_config
   \<and> fst (makeApiCall fetch_200 ''y'' ''GET'' (base (endpoints example_config) @ ''/health'')
            JUndefined Map.empty example_manager) = Inr \<lparr>response_status = 200\<rparr>
   \<and> ok \<lparr>response_status = 200\<rparr>
   \<and> fst (testIntegration fetch_200 ''y'' example_manager) = Inr True
   \<and> map_option status
         (integrations (snd (testIntegration fetch_200 ''y'' example_manager)) ''y'') = Some Active
   \<and> fst (makeApiCall fetch_500 ''y'' ''GET'' (base (endpoints example_config) @ ''/health'')
            JUndefined Map.empty example_manager) = Inr \<lparr>response_status = 500\<rparr>
   \<and> \<not> ok \<lparr>response_status = 500\<rparr>
   \<and> map_option status
         (integrations (snd (testIntegration fetch_500 ''y'' example_manager)) ''y'')
       = Some StatusError
   \<and> fst (makeApiCall fetch_down ''y'' ''GET'' (base (endpoints example_config) @ ''/health'')
            JUndefined Map.empty example_manager) = Inl (Error ''network down'')
   \<and> map (\<lambda>e. (event_type e, error e))
         (events (snd (testIntegration fetch_down ''y'' example_manager)))
       = [(ApiCall, Some ''network down''), (ErrorEvent, Some ''network down'')]"
  using testIntegration_outcome [of example_manager "''y''" example_config fetch_200]
    testIntegration_outcome [of example_manager "''y''" example_config fetch_500]
    testIntegration_outcome [of example_manager "''y''" example_config fetch_down]
  by (simp add: example_manager_def example_config_def new_IntegrationManager_def
      makeApiCall_def checkRateLimit_def tryCatch_def andThen_def
      external_def ret_def throw_def Date_now_def logEvent_eq fetch_500_def fetch_200_def
      fetch_down_def ok_def Let_def
      push_event_slice slice_last_def built_event_def)

lemma registerIntegration_no_limits:
  "rateLimits (settings config) = None \<Longrightarrow>
   registerIntegration fetch config m =
     (case testIntegration fetch (config_id config)
             (m\<lparr>clock := stl (stl (clock m)),
                integrations := (integrations m)(config_id config \<mapsto>
                  config\<lparr>createdAt := shd (clock m), updatedAt := shd (stl (clock m))\<rparr>)\<rparr>) of
        (Inl e, m2) \<Rightarrow> (Inl e, m2)
      | (Inr b, m2) \<Rightarrow> (Inr (config_id config), m2))"
  by (simp add: registerIntegration_def andThen_def Date_now_def ret_def Let_def
      split: prod.splits sum.splits)

text \<open>
  C10. Stale limiter on re-registration. When \<^verbatim>\<open>registerIntegration\<close> is given a
  configuration without \<^verbatim>\<open>rateLimits\<close> for an id that has a limiter bound, it returns
  the id, the stored configuration is the new one (with its creation time, and the
  status and update time that the health check set), and the limiter of that id is
  still the old one, with the old limits, as the health check's own admission test
  left it. A later \<^verbatim>\<open>makeApiCall\<close> that this limiter refuses throws
  ``Rate limit exceeded''.
\<close>

theorem stale_limiter:
  assumes "rateLimiters m (config_id config) = Some rl"
    and "rateLimits (settings config) = None"
  shows "let i = config_id config;
             m' = snd (registerIntegration fetch config m);
             rl' = snd (canMakeRequest rl (shd (stl (stl (clock m)))))
         in fst (registerIntegration fetch config m) = Inr i
          \<and> (\<exists>s t. (s = Active \<or> s = StatusError)
                \<and> integrations m' i
                    = Some (config\<lparr>createdAt := shd (clock m), status := s, updatedAt := t\<rparr>))
          \<and> rateLimiters m' i = Some rl'
          \<and> limits rl' = limits rl
          \<and> (\<not> fst (canMakeRequest rl' (shd (clock m'))) \<longrightarrow>
               fst (makeApiCall fetch2 i meth ep dat hdrs m')
                 = Inl (Error ''Rate limit exceeded''))"
proof -
  let ?i = "config_id config"
  let ?c = "config\<lparr>createdAt := shd (clock m), updatedAt := shd (stl (clock m))\<rparr>"
  let ?m1 = "m\<lparr>clock := stl (stl (clock m)), integrations := (integrations m)(?i \<mapsto> ?c)\<rparr>"
  let ?rl' = "snd (canMakeRequest rl (shd (stl (stl (clock m)))))"
  let ?call = "makeApiCall fetch ?i ''GET'' (base (endpoints ?c) @ ''/health'') JUndefined Map.empty ?m1"
  have reg: "registerIntegration fetch config m =
       (case testIntegration fetch ?i ?m1 of
           (Inl e, m2) \<Rightarrow> (Inl e, m2)
         | (Inr b, m2) \<Rightarrow> (Inr ?i, m2))"
    using assms(2) by (rule registerIntegration_no_limits)
  have i1: "integrations ?m1 ?i = Some ?c" by simp
  obtain r m2 where c2: "?call = (r, m2)" by (cases ?call)
  have l2: "rateLimiters m2 = (rateLimiters m)(?i \<mapsto> ?rl')"
    using makeApiCall_frame[OF i1, of fetch "''GET''" "base (endpoints ?c) @ ''/health''"
        JUndefined Map.empty] c2 assms(1)
    by (simp add: checkRateLimit_limiters)
  have i2: "integrations m2 = integrations ?m1"
    using makeApiCall_frame[OF i1, of fetch "''GET''" "base (endpoints ?c) @ ''/health''"
        JUndefined Map.empty] c2 by simp
  note t = testIntegration_eq[OF i1, of fetch, unfolded c2]
  let ?m' = "snd (registerIntegration fetch config m)"
  have res: "fst (registerIntegration fetch config m) = Inr ?i"
    unfolding reg t by (cases r) simp_all
  have lim: "rateLimiters ?m' = (rateLimiters m)(?i \<mapsto> ?rl')"
    unfolding reg t using l2 by (cases r) (simp_all add: logEvent_eq)
  have cfg: "\<exists>s t. (s = Active \<or> s = StatusError)
                \<and> integrations ?m' ?i
                    = Some (config\<lparr>createdAt := shd (clock m), status := s, updatedAt := t\<rparr>)"
    unfolding reg t by (cases r) (auto simp: logEvent_eq)
  have reg': "integrations ?m' ?i \<noteq> None" using cfg by auto
  then obtain c' where c': "integrations ?m' ?i = Some c'" by auto
  have thr: "fst (makeApiCall fetch2 ?i meth ep dat hdrs ?m')
                 = Inl (Error ''Rate limit exceeded'')"
    if "\<not> fst (canMakeRequest ?rl' (shd (clock ?m')))"
    using makeApiCall_refused[OF c' _ that, of fetch2 meth ep dat hdrs] lim by simp
  show ?thesis
    unfolding Let_def using res cfg lim thr by (simp add: canMakeRequest_limits)
qed

theorem stale_limiter_witness:
  "rateLimiters example_limited (config_id example_config)
     = Some \<lparr>requests = [0], limits = example_limits\<rparr>
   \<and> rateLimits (settings example_config) = None
   \<and> map_option (\<lambda>c. rateLimits (settings c)) (integrations example_limited ''y'')
       = Some (Some example_limits)
   \<and> map_option (\<lambda>c. rateLimits (settings c))
         (integrations (snd (registerIntegration fetch_200 example_config example_limited)) ''y'')
       = Some None
   \<and> fst (registerIntegration fetch_200 example_config example_limited) = Inr ''y''
   \<and> rateLimiters (snd (registerIntegration fetch_200 example_config example_limited)) ''y''
       = Some \<lparr>requests = [0], limits = example_limits\<rparr>
   \<and> \<not> fst (canMakeRequest \<lparr>requests = [0], limits = example_limits\<rparr>
          (shd (clock (snd (registerIntegration fetch_200 example_config example_limited)))))
   \<and> fst (makeApiCall fetch_200 ''y'' ''GET'' ''/mail/send'' JNull Map.empty
            (snd (registerIntegration fetch_200 example_config example_limited)))
       = Inl (Error ''Rate limit exceeded'')"
  using stale_limiter [of example_limited example_config
      "\<lparr>requests = [0], limits = example_limits\<rparr>" fetch_200 fetch_200
      "''GET''" "''/mail/send''" JNull Map.empty]
  by (simp add: example_limited_def limited_config_def example_manager_def example_config_def
      example_limits_def new_IntegrationManager_def registerIntegration_def testIntegration_def
      makeApiCall_def checkRateLimit_def tryCatch_def andThen_def
      external_def ret_def throw_def Date_now_def logEvent_eq fetch_200_def ok_def Let_def
      updateIntegration_def canMakeRequest_def spread_status
      push_event_slice slice_last_def built_event_def)

end
